theory Spec2Isabelle
  imports Complex_Main "HOL-Library.Word"
begin

section \<open>Data of the program\<close>

text \<open>
  The program (\<^verbatim>\<open>app.py\<close>) is a chat bot: a file sent to it is decoded, cut into
  sentences, and every sentence is stored with its embedding in one process-wide
  collection (\<^verbatim>\<open>document_storage\<close>); a text message is embedded and the collection is
  asked for the nearest stored sentences.

  Python strings are modelled as \<open>string\<close>: the characters are the code points below 256.
  File contents are byte strings.
\<close>

type_synonym bytes = "8 word list"

text \<open>
  One entry of the collection, as \<^verbatim>\<open>document_storage.add(ids=[..], embeddings=[..],
  documents=[..])\<close> passes it: the id, the embedding and the sentence.
\<close>

record vector_record =
  rec_id :: string
  rec_embedding :: "real list"
  rec_document :: string

text \<open>
  The dictionary returned by \<^verbatim>\<open>collection.query\<close>. The program reads one key of it,
  \<^verbatim>\<open>results.get('documents', [])\<close>: the field is \<open>None\<close> when the key is absent or holds
  Python's \<^verbatim>\<open>None\<close> (both are falsy for the test that follows), and otherwise the list
  that holds, for each query embedding, the list of matched documents.
\<close>

record query_result =
  documents :: "string list list option"

text \<open>
  The libraries the program calls, as parameters of the model: \<^verbatim>\<open>chardet\<close> with
  \<^verbatim>\<open>bytes.decode\<close>, \<^verbatim>\<open>python-docx\<close>, \<^verbatim>\<open>nltk\<close>'s \<^verbatim>\<open>sent_tokenize\<close>, the embedding model's
  \<^verbatim>\<open>encode\<close>, and the collection's \<^verbatim>\<open>add\<close> and \<^verbatim>\<open>query\<close>. A call that raises returns
  \<open>None\<close>. The type \<open>'s\<close> is the state of the collection.
\<close>

record 's libs =
  chardet_decode :: "bytes \<Rightarrow> string option"
  docx_paragraphs :: "bytes \<Rightarrow> string list option"
  sent_tokenize :: "string \<Rightarrow> string list option"
  encode :: "string \<Rightarrow> real list option"
  collection_add :: "'s \<Rightarrow> vector_record \<Rightarrow> 's option"
  collection_query :: "'s \<Rightarrow> real list \<Rightarrow> nat \<Rightarrow> query_result option"

text \<open>
  The calls made to the segmenter, the embedding model and the collection are recorded,
  oldest first, next to the collection itself: what a run did before it returned is then
  a statement about this list.
\<close>

datatype call =
    SentTokenize string
  | Encode string
  | CollectionAdd vector_record
  | CollectionQuery "real list" nat

record 's world =
  document_storage :: 's
  calls :: "call list"

definition called :: "call \<Rightarrow> 's world \<Rightarrow> 's world" where
  "called c w = w\<lparr>calls := calls w @ [c]\<rparr>"

text \<open>
  The replies of the program are fixed Russian sentences; each one is a constructor here.
  \<open>AddFailed\<close> carries the file name the sentence quotes, \<open>SearchResults\<close> the numbered
  lines that follow the header of the result list.
\<close>

datatype reply =
    CouldNotProcess
  | SavedOk
  | AddFailed string
  | NoMatchesFound
  | SearchResults string
  | SearchFailed

text \<open>A call of a function of the program returns a value or lets an exception escape.\<close>

datatype 'a outcome = Returned 'a | Raised

section \<open>Strings\<close>

text \<open>
  \<^verbatim>\<open>str.lower\<close> on the code points below 256: the letters A to Z and the capital letters
  of the Latin-1 block (U+00C0 to U+00DE without the multiplication sign U+00D7) move up
  by 32.
\<close>

definition lower_char :: "char \<Rightarrow> char" where
  "lower_char c =
     (let n = (of_char c :: nat)
      in if (65 \<le> n \<and> n \<le> 90) \<or> (192 \<le> n \<and> n \<le> 222 \<and> n \<noteq> 215)
         then char_of (n + 32) else c)"

definition lower :: "string \<Rightarrow> string" where
  "lower s = map lower_char s"

definition endswith :: "string \<Rightarrow> string \<Rightarrow> bool" where
  "endswith s suf = (length suf \<le> length s \<and> drop (length s - length suf) s = suf)"

text \<open>\<^verbatim>\<open>"\n".join(parts)\<close>\<close>

fun join_lines :: "string list \<Rightarrow> string" where
  "join_lines [] = []"
| "join_lines [p] = p"
| "join_lines (p # q # ps) = p @ [CHR 0x0A] @ join_lines (q # ps)"

text \<open>\<^verbatim>\<open>str(n)\<close> for a natural number: its decimal digits.\<close>

definition digit_char :: "nat \<Rightarrow> char" where
  "digit_char d = char_of (48 + d)"

function str_nat :: "nat \<Rightarrow> string" where
  "str_nat n = (if n < 10 then [digit_char n] else str_nat (n div 10) @ [digit_char (n mod 10)])"
  by pat_completeness auto
termination
  by (relation "measure id") auto

declare str_nat.simps [simp del]

section \<open>Ingestion\<close>

text \<open>
  \<^verbatim>\<open>extract_file_content(file_bytes, file_name)\<close>: the text of a \<^verbatim>\<open>.txt\<close> or \<^verbatim>\<open>.docx\<close>
  file, \<open>None\<close> for any other name and when decoding raises (the whole body is inside
  \<^verbatim>\<open>try\<close>).
\<close>

definition extract_file_content :: "'s libs \<Rightarrow> bytes \<Rightarrow> string \<Rightarrow> string option" where
  "extract_file_content L file_bytes file_name =
     (if endswith (lower file_name) ''.txt'' then chardet_decode L file_bytes
      else if endswith (lower file_name) ''.docx'' then
        (case docx_paragraphs L file_bytes of
           None \<Rightarrow> None
         | Some paragraphs \<Rightarrow> Some (join_lines paragraphs))
      else None)"

text \<open>
  The loop of \<^verbatim>\<open>populate_database\<close> over \<^verbatim>\<open>enumerate(sentences)\<close>, from position \<open>index\<close>
  on. The first sentence whose embedding or whose \<^verbatim>\<open>add\<close> raises ends the loop: the
  handler returns the error reply. The id of a sentence is \<^verbatim>\<open>str(index)\<close>.
\<close>

fun add_sentences :: "'s libs \<Rightarrow> string \<Rightarrow> nat \<Rightarrow> string list \<Rightarrow> 's world \<Rightarrow> reply \<times> 's world" where
  "add_sentences L file_name index [] w = (SavedOk, w)"
| "add_sentences L file_name index (sentence # rest) w =
     (case encode L sentence of
        None \<Rightarrow> (AddFailed file_name, called (Encode sentence) w)
      | Some vector \<Rightarrow>
          (let r = \<lparr>rec_id = str_nat index, rec_embedding = vector, rec_document = sentence\<rparr>;
               w1 = called (CollectionAdd r) (called (Encode sentence) w)
           in case collection_add L (document_storage w) r of
                None \<Rightarrow> (AddFailed file_name, w1)
              | Some storage \<Rightarrow>
                  add_sentences L file_name (Suc index) rest (w1\<lparr>document_storage := storage\<rparr>)))"

text \<open>
  \<^verbatim>\<open>populate_database(file_content, file_name)\<close>. The test \<^verbatim>\<open>if not text\<close> holds for
  \<open>None\<close> and for the empty string. \<^verbatim>\<open>sent_tokenize\<close> is called outside any \<^verbatim>\<open>try\<close>: an
  exception there escapes.
\<close>

definition populate_database :: "'s libs \<Rightarrow> bytes \<Rightarrow> string \<Rightarrow> 's world \<Rightarrow> reply outcome \<times> 's world" where
  "populate_database L file_content file_name w =
     (case extract_file_content L file_content file_name of
        None \<Rightarrow> (Returned CouldNotProcess, w)
      | Some text \<Rightarrow>
          if text = [] then (Returned CouldNotProcess, w)
          else (case sent_tokenize L text of
                  None \<Rightarrow> (Raised, called (SentTokenize text) w)
                | Some sentences \<Rightarrow>
                    (let (r, w') = add_sentences L file_name 0 sentences (called (SentTokenize text) w)
                     in (Returned r, w'))))"

section \<open>Query\<close>

text \<open>
  The lines of the result list: \<^verbatim>\<open>f"{i+1}. {document}\n"\<close> for each document of
  \<^verbatim>\<open>enumerate(matched_documents[0])\<close>, from position \<open>i\<close> on.
\<close>

fun format_results :: "nat \<Rightarrow> string list \<Rightarrow> string" where
  "format_results i [] = []"
| "format_results i (document # rest) =
     str_nat (i + 1) @ ''. '' @ document @ [CHR 0x0A] @ format_results (Suc i) rest"

text \<open>
  \<^verbatim>\<open>search_similar_content(query, collection, top_n)\<close>, the collection being the one of
  the world. The whole body is inside \<^verbatim>\<open>try\<close>: a raising library call gives the error
  reply. The test \<^verbatim>\<open>if not matched_documents\<close> looks at the list read from the key
  \<^verbatim>\<open>'documents'\<close>; the lines are made from its entry 0.
\<close>

definition search_similar_content :: "'s libs \<Rightarrow> string \<Rightarrow> nat \<Rightarrow> 's world \<Rightarrow> reply \<times> 's world" where
  "search_similar_content L query top_n w =
     (case encode L query of
        None \<Rightarrow> (SearchFailed, called (Encode query) w)
      | Some query_vector \<Rightarrow>
          (let w1 = called (CollectionQuery query_vector top_n) (called (Encode query) w)
           in case collection_query L (document_storage w) query_vector top_n of
                None \<Rightarrow> (SearchFailed, w1)
              | Some results \<Rightarrow>
                  (case documents results of
                     None \<Rightarrow> (NoMatchesFound, w1)
                   | Some [] \<Rightarrow> (NoMatchesFound, w1)
                   | Some (matched # _) \<Rightarrow> (SearchResults (format_results 0 matched), w1))))"

section \<open>The vector store\<close>

text \<open>
  The collection is an object of the \<^verbatim>\<open>chromadb\<close> library; the program holds no code of
  it. Its contract is taken from section 4.1 of the specification.

  Modelled from the spec: the store behind \<^verbatim>\<open>document_storage\<close> (\<^verbatim>\<open>chromadb\<close>'s
  collection is not part of the sources). The store holds its records in insertion order.
  \<open>store_add\<close> rejects a record whose id is already present, then one whose embedding
  has not the dimension of the store (set by the first insertion), then one whose text is
  empty; otherwise the record is appended.
\<close>

datatype store_error = DuplicateId | DimensionMismatch | EmptyText

type_synonym vector_store = "vector_record list"

definition store_add :: "vector_store \<Rightarrow> vector_record \<Rightarrow> store_error + vector_store" where
  "store_add st r =
     (if rec_id r \<in> set (map rec_id st) then Inl DuplicateId
      else if (case st of [] \<Rightarrow> False
               | first # _ \<Rightarrow> length (rec_embedding r) \<noteq> length (rec_embedding first))
        then Inl DimensionMismatch
      else if rec_document r = [] then Inl EmptyText
      else Inr (st @ [r]))"

text \<open>
  Modelled from the spec: the similarity of the search, the cosine of the angle between
  two vectors. (Division by zero is zero in HOL: a zero vector has similarity 0 to
  every vector.)
\<close>

definition dot :: "real list \<Rightarrow> real list \<Rightarrow> real" where
  "dot a b = sum_list (map (\<lambda>(x, y). x * y) (zip a b))"

definition cosine_similarity :: "real list \<Rightarrow> real list \<Rightarrow> real" where
  "cosine_similarity a b = dot a b / (sqrt (dot a a) * sqrt (dot b b))"

definition similarity :: "real list \<Rightarrow> vector_record \<Rightarrow> real" where
  "similarity q r = cosine_similarity q (rec_embedding r)"

text \<open>
  Modelled from the spec: \<open>search\<close> as section 4.1 describes the algorithm, a linear scan
  over the records in insertion order that keeps the \<open>k\<close> best seen so far. The buffer is
  ordered best first; \<open>keep_best\<close> puts a new entry behind every entry that is at least as
  similar (so the earlier record wins a tie), and the scan cuts the buffer back to \<open>k\<close>.
\<close>

fun keep_best :: "real \<times> vector_record \<Rightarrow> (real \<times> vector_record) list \<Rightarrow> (real \<times> vector_record) list" where
  "keep_best e [] = [e]"
| "keep_best e (x # xs) = (if fst x < fst e then e # x # xs else x # keep_best e xs)"

definition scan :: "real list \<Rightarrow> nat \<Rightarrow> vector_store \<Rightarrow> (real \<times> vector_record) list" where
  "scan q k st = foldl (\<lambda>best r. take k (keep_best (similarity q r, r) best)) [] st"

definition store_search :: "vector_store \<Rightarrow> real list \<Rightarrow> nat \<Rightarrow> (vector_record \<times> real) list" where
  "store_search st q k = map (\<lambda>(s, r). (r, s)) (scan q k st)"

subsection \<open>The contract of the search\<close>

text \<open>
  Modelled from the spec: the contract of \<open>search\<close> (section 4.1, and the top-k property of
  section 8) as a relation between a store, a query embedding, a limit and an answer;
  \<^verbatim>\<open>chromadb\<close>'s query is not part of the sources. An answer is given by the positions
  in the store of the records returned, in the order in which they are returned; the
  position of a record is its place in the insertion order. \<open>ranks_before q st a b\<close>: the
  record at position \<open>a\<close> is more similar to \<open>q\<close> than the one at position \<open>b\<close>, or as
  similar and inserted earlier. The contract: the answer has \<open>k\<close> entries, or as many as
  the store has records when these are fewer; every entry is a position of the store;
  the entries are in the order of \<open>ranks_before\<close> (decreasing similarity, the earlier
  record first in a tie); and every returned record ranks before every record of the
  store that is not returned.
\<close>

definition ranks_before :: "real list \<Rightarrow> vector_store \<Rightarrow> nat \<Rightarrow> nat \<Rightarrow> bool" where
  "ranks_before q st a b =
     (similarity q (st ! b) < similarity q (st ! a) \<or>
      (similarity q (st ! a) = similarity q (st ! b) \<and> a < b))"

definition search_contract :: "vector_store \<Rightarrow> real list \<Rightarrow> nat \<Rightarrow> nat list \<Rightarrow> bool" where
  "search_contract st q k ps =
     (length ps = min k (length st) \<and>
      (\<forall>p\<in>set ps. p < length st) \<and>
      sorted_wrt (ranks_before q st) ps \<and>
      (\<forall>p\<in>set ps. \<forall>u\<in>set [0..<length st]. u \<notin> set ps \<longrightarrow> ranks_before q st p u))"

text \<open>
  Modelled from the spec: the sequence of (record, score) pairs that \<open>search\<close> returns, for
  an answer given by positions: the records at these positions, each with its similarity
  to the query.
\<close>

definition records_at :: "vector_store \<Rightarrow> real list \<Rightarrow> nat list \<Rightarrow> (vector_record \<times> real) list" where
  "records_at st q ps = map (\<lambda>p. (st ! p, similarity q (st ! p))) ps"

subsection \<open>The store as the program's collection\<close>

text \<open>
  The store behind the two calls the program makes. \<^verbatim>\<open>add\<close> raises where \<open>store_add\<close>
  rejects. \<^verbatim>\<open>query\<close> is called with one query embedding and answers a dictionary whose
  \<^verbatim>\<open>'documents'\<close> entry holds one list for that embedding: the texts of the records
  found, best first.
\<close>

definition checked_add :: "vector_store \<Rightarrow> vector_record \<Rightarrow> vector_store option" where
  "checked_add st r = (case store_add st r of Inl e \<Rightarrow> None | Inr st' \<Rightarrow> Some st')"

definition store_query :: "vector_store \<Rightarrow> real list \<Rightarrow> nat \<Rightarrow> query_result option" where
  "store_query st q k = Some \<lparr>documents = Some [map (\<lambda>(r, s). rec_document r) (store_search st q k)]\<rparr>"

text \<open>A collection that takes every record, with no check of the id.\<close>

definition unchecked_add :: "vector_store \<Rightarrow> vector_record \<Rightarrow> vector_store option" where
  "unchecked_add st r = Some (st @ [r])"

text \<open>
  Libraries given by finite tables, for running the program on a scenario: what the
  decoder, the segmenter and the embedding model answer on the inputs listed (any other
  input raises), over a store with the given \<^verbatim>\<open>add\<close>.
\<close>

definition table_libs ::
  "(bytes \<times> string) list \<Rightarrow> (string \<times> string list) list \<Rightarrow> (string \<times> real list) list \<Rightarrow>
   (vector_store \<Rightarrow> vector_record \<Rightarrow> vector_store option) \<Rightarrow> vector_store libs" where
  "table_libs texts sentences vectors add =
     \<lparr>chardet_decode = map_of texts,
      docx_paragraphs = (\<lambda>b. None),
      sent_tokenize = map_of sentences,
      encode = map_of vectors,
      collection_add = add,
      collection_query = store_query\<rparr>"

definition empty_world :: "vector_store world" where
  "empty_world = \<lparr>document_storage = [], calls = []\<rparr>"

subsection \<open>Scenarios\<close>

text \<open>
  A file \<^verbatim>\<open>a.txt\<close> with the text \<^verbatim>\<open>A. B. C. D. E.\<close>, five sentences. The embedding model
  raises on the third sentence and on no other.
\<close>

definition five_bytes :: bytes where
  "five_bytes = [0x41, 0x2E, 0x20, 0x42, 0x2E, 0x20, 0x43, 0x2E, 0x20, 0x44, 0x2E, 0x20, 0x45, 0x2E]"

definition five_libs :: "vector_store libs" where
  "five_libs =
     table_libs [(five_bytes, ''A. B. C. D. E.'')]
       [(''A. B. C. D. E.'', [''A.'', ''B.'', ''C.'', ''D.'', ''E.''])]
       [(''A.'', [1, 0]), (''B.'', [0, 1]), (''D.'', [1, 1]), (''E.'', [1, 2])]
       checked_add"

definition rec_A :: vector_record where
  "rec_A = \<lparr>rec_id = ''0'', rec_embedding = [1, 0], rec_document = ''A.''\<rparr>"

definition rec_B :: vector_record where
  "rec_B = \<lparr>rec_id = ''1'', rec_embedding = [0, 1], rec_document = ''B.''\<rparr>"

definition present_in :: "vector_store \<Rightarrow> vector_record \<Rightarrow> bool" where
  "present_in st r = (r \<in> set st)"

text \<open>
  A file \<^verbatim>\<open>a.txt\<close> that holds a byte order mark and nothing else: its text is empty. A file
  \<^verbatim>\<open>b.txt\<close> that holds one space, and one that holds one line feed: the segmenter finds
  no sentence in either text.
\<close>

definition bom_bytes :: bytes where
  "bom_bytes = [0xEF, 0xBB, 0xBF]"

definition bom_libs :: "vector_store libs" where
  "bom_libs = table_libs [(bom_bytes, [])] [] [] checked_add"

definition blank_libs :: "vector_store libs" where
  "blank_libs = table_libs [([0x20], '' '')] [('' '', [])] [] checked_add"

definition newline_libs :: "vector_store libs" where
  "newline_libs = table_libs [([0x0A], [CHR 0x0A])] [([CHR 0x0A], [])] [] checked_add"

text \<open>
  A store that holds the records of the sentences \<^verbatim>\<open>A.\<close> and \<^verbatim>\<open>B.\<close>, and an embedding
  model that answers the empty text and the text \<^verbatim>\<open>sky\<close> with a vector.
\<close>

definition query_libs :: "vector_store libs" where
  "query_libs = table_libs [] [] [([], [1, 0]), (''sky'', [1, 0])] checked_add"

definition two_records :: "vector_store world" where
  "two_records = \<lparr>document_storage = [rec_A, rec_B], calls = []\<rparr>"

text \<open>
  Two files sent one after the other: \<^verbatim>\<open>a.txt\<close> with the text \<^verbatim>\<open>A. B.\<close> and \<^verbatim>\<open>b.txt\<close> with
  the text \<^verbatim>\<open>C. D.\<close>, two sentences each, every sentence with an embedding. The collection
  is a parameter of the scenario.
\<close>

definition ab_bytes :: bytes where
  "ab_bytes = [0x41, 0x2E, 0x20, 0x42, 0x2E]"

definition cd_bytes :: bytes where
  "cd_bytes = [0x43, 0x2E, 0x20, 0x44, 0x2E]"

definition pair_libs ::
  "(vector_store \<Rightarrow> vector_record \<Rightarrow> vector_store option) \<Rightarrow> vector_store libs" where
  "pair_libs add =
     table_libs [(ab_bytes, ''A. B.''), (cd_bytes, ''C. D.'')]
       [(''A. B.'', [''A.'', ''B.'']), (''C. D.'', [''C.'', ''D.''])]
       [(''A.'', [1, 0]), (''B.'', [0, 1]), (''C.'', [1, 1]), (''D.'', [1, 2])]
       add"

text \<open>
  A store of three records in which the second and the third are equally similar to the
  query \<open>[1, 0]\<close> and the first is less similar.
\<close>

definition rec_twin :: vector_record where
  "rec_twin = \<lparr>rec_id = ''2'', rec_embedding = [1, 0], rec_document = ''C.''\<rparr>"

text \<open>
  Libraries that differ from \<open>query_libs\<close> in the collection: it answers every query with
  the one document \<^verbatim>\<open>A.\<close>, an answer that is not computed by the scan of the store.
\<close>

definition canned_libs :: "vector_store libs" where
  "canned_libs = query_libs\<lparr>collection_query := (\<lambda>st q k. Some \<lparr>documents = Some [[''A.'']]\<rparr>)\<rparr>"

section \<open>Evaluating strings\<close>

lemmas string_eval =
  endswith_def lower_def lower_char_def digit_char_def char_of_def bit_Suc_0_iff str_nat.simps

lemma str_nat_0: "str_nat 0 = ''0''"
  by (simp add: string_eval)

lemma txt_name: "endswith (lower ''a.txt'') ''.txt''" "endswith (lower ''b.txt'') ''.txt''"
  by (simp_all add: string_eval)

section \<open>The loop over the sentences\<close>

lemma add_sentences_append:
  "add_sentences L name i pre w = (SavedOk, w1) \<Longrightarrow>
   add_sentences L name i (pre @ rest) w = add_sentences L name (i + length pre) rest w1"
proof (induction pre arbitrary: i w)
  case Nil
  then show ?case by simp
next
  case (Cons s pre)
  then show ?case
    by (auto simp: Let_def split: option.splits)
qed

lemma add_sentences_reply:
  "add_sentences L name i ss w = (r, w') \<Longrightarrow> r = SavedOk \<or> r = AddFailed name"
  by (induction ss arbitrary: i w) (auto simp: Let_def split: option.splits)

lemma add_sentences_keeps:
  assumes keeps: "\<And>st r st'. collection_add L st r = Some st' \<Longrightarrow>
                    present st' r \<and> (\<forall>x. present st x \<longrightarrow> present st' x)"
  shows "add_sentences L name i ss w = (r, w') \<Longrightarrow> present (document_storage w) x \<Longrightarrow>
         present (document_storage w') x"
proof (induction ss arbitrary: i w)
  case Nil
  then show ?case by simp
next
  case (Cons s ss)
  show ?case
  proof (cases "encode L s")
    case None
    with Cons.prems show ?thesis by (auto simp: called_def)
  next
    case (Some v)
    let ?r = "\<lparr>rec_id = str_nat i, rec_embedding = v, rec_document = s\<rparr>"
    show ?thesis
    proof (cases "collection_add L (document_storage w) ?r")
      case None
      with \<open>encode L s = Some v\<close> Cons.prems show ?thesis by (auto simp: called_def)
    next
      case (Some st')
      let ?w1 = "(called (CollectionAdd ?r) (called (Encode s) w))\<lparr>document_storage := st'\<rparr>"
      from Some \<open>encode L s = Some v\<close> Cons.prems(1)
      have run: "add_sentences L name (Suc i) ss ?w1 = (r, w')" by simp
      from keeps [OF Some] Cons.prems(2) have "present (document_storage ?w1) x" by simp
      with Cons.IH [OF run] show ?thesis .
    qed
  qed
qed

lemma add_sentences_stored:
  assumes keeps: "\<And>st r st'. collection_add L st r = Some st' \<Longrightarrow>
                    present st' r \<and> (\<forall>x. present st x \<longrightarrow> present st' x)"
  shows "add_sentences L name i ss w = (SavedOk, w') \<Longrightarrow> j < length ss \<Longrightarrow>
         \<exists>v. encode L (ss ! j) = Some v \<and>
             present (document_storage w')
               \<lparr>rec_id = str_nat (i + j), rec_embedding = v, rec_document = ss ! j\<rparr>"
proof (induction ss arbitrary: i j w)
  case Nil
  then show ?case by simp
next
  case (Cons s ss)
  from Cons.prems(1) obtain v where v: "encode L s = Some v"
    by (cases "encode L s") auto
  let ?r = "\<lparr>rec_id = str_nat i, rec_embedding = v, rec_document = s\<rparr>"
  from Cons.prems(1) v obtain st' where st': "collection_add L (document_storage w) ?r = Some st'"
    by (cases "collection_add L (document_storage w) ?r") auto
  let ?w1 = "(called (CollectionAdd ?r) (called (Encode s) w))\<lparr>document_storage := st'\<rparr>"
  from Cons.prems(1) v st' have run: "add_sentences L name (Suc i) ss ?w1 = (SavedOk, w')"
    by simp
  show ?case
  proof (cases j)
    case 0
    from keeps [OF st'] have "present (document_storage ?w1) ?r" by simp
    from add_sentences_keeps [of L present, OF keeps run this] v 0 show ?thesis by simp
  next
    case (Suc j')
    with Cons.prems(2) have "j' < length ss" by simp
    from Cons.IH [OF run this] Suc show ?thesis by simp
  qed
qed

section \<open>Unsupported file formats\<close>

lemma extract_unsupported:
  "\<not> endswith (lower file_name) ''.txt'' \<Longrightarrow> \<not> endswith (lower file_name) ''.docx'' \<Longrightarrow>
   extract_file_content L file_bytes file_name = None"
  by (simp add: extract_file_content_def)

text \<open>
  C10. A file whose lower-cased name ends in neither \<^verbatim>\<open>.txt\<close> nor \<^verbatim>\<open>.docx\<close> gets the
  could-not-process reply, and the world is the one before the call: the collection is
  unchanged and neither the segmenter nor the embedding model nor the collection was called.
\<close>

theorem unsupported_format_rejected:
  assumes "\<not> endswith (lower file_name) ''.txt''"
    and "\<not> endswith (lower file_name) ''.docx''"
  shows "populate_database L file_content file_name w = (Returned CouldNotProcess, w)"
  using assms by (simp add: populate_database_def extract_unsupported)

theorem unsupported_format_rejected_witness:
  "\<not> endswith (lower ''Report.PDF'') ''.txt'' \<and> \<not> endswith (lower ''Report.PDF'') ''.docx'' \<and>
   populate_database (table_libs [] [] [] checked_add) [0x25, 0x50, 0x44, 0x46] ''Report.PDF'' empty_world
     = (Returned CouldNotProcess, empty_world)"
proof -
  have a: "\<not> endswith (lower ''Report.PDF'') ''.txt''"
    by (simp add: string_eval)
  have b: "\<not> endswith (lower ''Report.PDF'') ''.docx''"
    by (simp add: string_eval)
  show ?thesis
    using a b unsupported_format_rejected [OF a b] by simp
qed

section \<open>Ingestion stops at the first failure\<close>

lemma populate_database_sentences:
  assumes "extract_file_content L file_content file_name = Some text" and "text \<noteq> []"
    and "sent_tokenize L text = Some sentences"
  shows "populate_database L file_content file_name w =
           (Returned (fst (add_sentences L file_name 0 sentences (called (SentTokenize text) w))),
            snd (add_sentences L file_name 0 sentences (called (SentTokenize text) w)))"
  using assms by (simp add: populate_database_def split_beta)

lemma five_text: "extract_file_content five_libs five_bytes ''a.txt'' = Some ''A. B. C. D. E.''"
  by (simp add: extract_file_content_def txt_name five_libs_def table_libs_def)

lemma five_sentences:
  "sent_tokenize five_libs ''A. B. C. D. E.'' = Some ([''A.'', ''B.''] @ ''C.'' # [''D.'', ''E.''])"
  by (simp add: five_libs_def table_libs_def)

lemma five_before:
  "add_sentences five_libs ''a.txt'' 0 [''A.'', ''B.''] (called (SentTokenize ''A. B. C. D. E.'') empty_world)
     = (SavedOk, \<lparr>document_storage = [rec_A, rec_B],
          calls = [SentTokenize ''A. B. C. D. E.'', Encode ''A.'', CollectionAdd rec_A,
                   Encode ''B.'', CollectionAdd rec_B]\<rparr>)"
  by (simp add: five_libs_def table_libs_def called_def empty_world_def checked_add_def store_add_def
      rec_A_def rec_B_def Let_def string_eval)

lemma five_fails: "encode five_libs ''C.'' = None"
  by (simp add: five_libs_def table_libs_def)

text \<open>
  C2 as stated fails on the program. In the scenario the third of five sentences cannot be
  embedded: the run ends there with the error reply, two records are stored and not four,
  and the fourth and fifth sentence are never passed to the embedding model.
\<close>

theorem one_failure_aborts_counterexample:
  "populate_database five_libs five_bytes ''a.txt'' empty_world =
     (Returned (AddFailed ''a.txt''),
      \<lparr>document_storage = [rec_A, rec_B],
       calls = [SentTokenize ''A. B. C. D. E.'', Encode ''A.'', CollectionAdd rec_A,
                Encode ''B.'', CollectionAdd rec_B, Encode ''C.'']\<rparr>)
   \<and> length [rec_A, rec_B] \<noteq> 5 - 1"
proof -
  have nonempty: "''A. B. C. D. E.'' \<noteq> []" by simp
  have step: "add_sentences five_libs ''a.txt'' 0 ([''A.'', ''B.''] @ ''C.'' # [''D.'', ''E.''])
          (called (SentTokenize ''A. B. C. D. E.'') empty_world)
        = add_sentences five_libs ''a.txt'' (0 + length [''A.'', ''B.'']) (''C.'' # [''D.'', ''E.''])
            \<lparr>document_storage = [rec_A, rec_B],
             calls = [SentTokenize ''A. B. C. D. E.'', Encode ''A.'', CollectionAdd rec_A,
                      Encode ''B.'', CollectionAdd rec_B]\<rparr>"
    by (rule add_sentences_append [OF five_before])
  have "add_sentences five_libs ''a.txt'' 0 ([''A.'', ''B.''] @ ''C.'' # [''D.'', ''E.''])
          (called (SentTokenize ''A. B. C. D. E.'') empty_world)
        = (AddFailed ''a.txt'',
           \<lparr>document_storage = [rec_A, rec_B],
            calls = [SentTokenize ''A. B. C. D. E.'', Encode ''A.'', CollectionAdd rec_A,
                     Encode ''B.'', CollectionAdd rec_B, Encode ''C.'']\<rparr>)"
    unfolding step by (simp add: five_fails called_def)
  then show ?thesis
    by (simp add: populate_database_sentences [OF five_text nonempty five_sentences])
qed

lemma failed_run:
  assumes extracted: "extract_file_content L file_content file_name = Some text" "text \<noteq> []"
    and sents: "sent_tokenize L text = Some (pre @ s # post)"
    and before: "add_sentences L file_name 0 pre (called (SentTokenize text) w) = (SavedOk, w1)"
    and fails: "encode L s = None \<or>
                (\<exists>v. encode L s = Some v \<and>
                     collection_add L (document_storage w1)
                       \<lparr>rec_id = str_nat (length pre), rec_embedding = v, rec_document = s\<rparr> = None)"
  shows "\<exists>w'. populate_database L file_content file_name w = (Returned (AddFailed file_name), w')
            \<and> document_storage w' = document_storage w1
            \<and> (calls w' = calls w1 @ [Encode s] \<or>
               (\<exists>r. calls w' = calls w1 @ [Encode s, CollectionAdd r]))"
proof -
  have run: "add_sentences L file_name 0 (pre @ s # post) (called (SentTokenize text) w)
               = add_sentences L file_name (length pre) (s # post) w1"
    using add_sentences_append [OF before] by simp
  from fails show ?thesis
  proof
    assume "encode L s = None"
    then have "add_sentences L file_name (length pre) (s # post) w1
                 = (AddFailed file_name, called (Encode s) w1)"
      by simp
    with run show ?thesis
      by (simp add: populate_database_sentences [OF extracted sents] called_def)
  next
    assume "\<exists>v. encode L s = Some v \<and>
                collection_add L (document_storage w1)
                  \<lparr>rec_id = str_nat (length pre), rec_embedding = v, rec_document = s\<rparr> = None"
    then obtain v where v: "encode L s = Some v"
      and add: "collection_add L (document_storage w1)
                  \<lparr>rec_id = str_nat (length pre), rec_embedding = v, rec_document = s\<rparr> = None"
      by blast
    let ?r = "\<lparr>rec_id = str_nat (length pre), rec_embedding = v, rec_document = s\<rparr>"
    from v add have "add_sentences L file_name (length pre) (s # post) w1
                 = (AddFailed file_name, called (CollectionAdd ?r) (called (Encode s) w1))"
      by simp
    with run show ?thesis
      by (simp add: populate_database_sentences [OF extracted sents] called_def)
  qed
qed

text \<open>
  C2, amended. Ingestion stops at the first sentence whose embedding or storing fails. When
  the sentences before position \<open>length pre\<close> were all stored (the world is then \<open>w1\<close>) and
  the sentence \<open>s\<close> at that position fails, \<^verbatim>\<open>populate_database\<close> returns the error reply
  that names the file; the collection is the one reached after the sentences before \<open>s\<close>;
  and after them only \<open>s\<close> itself was passed to the model (and, when the model answered,
  to the collection): no later sentence is embedded or stored.
\<close>

theorem first_failure_ends_ingestion:
  assumes "extract_file_content L file_content file_name = Some text" and "text \<noteq> []"
    and "sent_tokenize L text = Some (pre @ s # post)"
    and "add_sentences L file_name 0 pre (called (SentTokenize text) w) = (SavedOk, w1)"
    and "encode L s = None \<or>
         (\<exists>v. encode L s = Some v \<and>
              collection_add L (document_storage w1)
                \<lparr>rec_id = str_nat (length pre), rec_embedding = v, rec_document = s\<rparr> = None)"
  shows "\<exists>w'. populate_database L file_content file_name w = (Returned (AddFailed file_name), w')
            \<and> document_storage w' = document_storage w1
            \<and> (calls w' = calls w1 @ [Encode s] \<or>
               (\<exists>r. calls w' = calls w1 @ [Encode s, CollectionAdd r]))"
  using assms by (rule failed_run)

theorem first_failure_ends_ingestion_witness:
  "\<exists>w'. populate_database five_libs five_bytes ''a.txt'' empty_world
            = (Returned (AddFailed ''a.txt''), w')
      \<and> document_storage w' = [rec_A, rec_B]
      \<and> (calls w' = [SentTokenize ''A. B. C. D. E.'', Encode ''A.'', CollectionAdd rec_A,
                      Encode ''B.'', CollectionAdd rec_B] @ [Encode ''C.'']
         \<or> (\<exists>r. calls w' = [SentTokenize ''A. B. C. D. E.'', Encode ''A.'', CollectionAdd rec_A,
                      Encode ''B.'', CollectionAdd rec_B] @ [Encode ''C.'', CollectionAdd r]))"
proof -
  have nonempty: "''A. B. C. D. E.'' \<noteq> []" by simp
  have fails: "encode five_libs ''C.'' = None \<or>
         (\<exists>v. encode five_libs ''C.'' = Some v \<and>
              collection_add five_libs
                (document_storage \<lparr>document_storage = [rec_A, rec_B],
                   calls = [SentTokenize ''A. B. C. D. E.'', Encode ''A.'', CollectionAdd rec_A,
                            Encode ''B.'', CollectionAdd rec_B]\<rparr>)
                \<lparr>rec_id = str_nat (length [''A.'', ''B.'']), rec_embedding = v,
                  rec_document = ''C.''\<rparr> = None)"
    using five_fails by simp
  show ?thesis
    using first_failure_ends_ingestion [OF five_text nonempty five_sentences five_before fails]
    by simp
qed

section \<open>Records stored before a failure\<close>

text \<open>
  C5. Let \<open>present\<close> be any way of observing which records a collection holds such that a
  successful \<^verbatim>\<open>add\<close> makes the new record present and keeps what was present. In a run
  of \<^verbatim>\<open>populate_database\<close> that fails at the sentence \<open>s\<close> of position \<open>length pre\<close>, after
  the run has returned every record built for a sentence before that position (id
  \<^verbatim>\<open>str(j)\<close>, the embedding of the sentence, the sentence) is present, and so is every
  record that was present before the run.
\<close>

theorem stored_records_survive_failure:
  assumes add_keeps: "\<forall>st r st'. collection_add L st r = Some st' \<longrightarrow>
                    present st' r \<and> (\<forall>x. present st x \<longrightarrow> present st' x)"
    and extracted: "extract_file_content L file_content file_name = Some text" "text \<noteq> []"
    and sents: "sent_tokenize L text = Some (pre @ s # post)"
    and before: "add_sentences L file_name 0 pre (called (SentTokenize text) w) = (SavedOk, w1)"
    and fails: "encode L s = None \<or>
                (\<exists>v. encode L s = Some v \<and>
                     collection_add L (document_storage w1)
                       \<lparr>rec_id = str_nat (length pre), rec_embedding = v, rec_document = s\<rparr> = None)"
  shows "(\<forall>j<length pre. \<exists>v. encode L (pre ! j) = Some v \<and>
            present (document_storage (snd (populate_database L file_content file_name w)))
              \<lparr>rec_id = str_nat j, rec_embedding = v, rec_document = pre ! j\<rparr>)
       \<and> (\<forall>x. present (document_storage w) x \<longrightarrow>
            present (document_storage (snd (populate_database L file_content file_name w))) x)"
proof -
  have keeps: "present st' r \<and> (\<forall>x. present st x \<longrightarrow> present st' x)"
    if "collection_add L st r = Some st'" for st r st'
    using add_keeps that by blast
  from failed_run [OF extracted sents before fails]
  have after: "document_storage (snd (populate_database L file_content file_name w))
                 = document_storage w1"
    by auto
  have new: "\<exists>v. encode L (pre ! j) = Some v \<and>
            present (document_storage w1)
              \<lparr>rec_id = str_nat j, rec_embedding = v, rec_document = pre ! j\<rparr>"
    if "j < length pre" for j
    using add_sentences_stored [of L present, OF keeps before that] by simp
  have old: "present (document_storage w1) x" if "present (document_storage w) x" for x
  proof -
    from that have "present (document_storage (called (SentTokenize text) w)) x"
      by (simp add: called_def)
    with add_sentences_keeps [of L present, OF keeps before] show ?thesis by blast
  qed
  from new old show ?thesis
    unfolding after by blast
qed

lemma checked_add_keeps:
  "checked_add st r = Some st' \<Longrightarrow> present_in st' r \<and> (\<forall>x. present_in st x \<longrightarrow> present_in st' x)"
  by (auto simp: checked_add_def store_add_def present_in_def split: if_splits)

lemma five_add: "collection_add five_libs = checked_add"
  by (simp add: five_libs_def table_libs_def)

theorem stored_records_survive_failure_witness:
  "present_in (document_storage (snd (populate_database five_libs five_bytes ''a.txt'' empty_world))) rec_A
   \<and> present_in (document_storage (snd (populate_database five_libs five_bytes ''a.txt'' empty_world))) rec_B"
proof -
  have keeps: "\<forall>st r st'. collection_add five_libs st r = Some st' \<longrightarrow>
                 present_in st' r \<and> (\<forall>x. present_in st x \<longrightarrow> present_in st' x)"
    unfolding five_add using checked_add_keeps by blast
  have nonempty: "''A. B. C. D. E.'' \<noteq> []" by simp
  have fails: "encode five_libs ''C.'' = None \<or>
         (\<exists>v. encode five_libs ''C.'' = Some v \<and>
              collection_add five_libs
                (document_storage \<lparr>document_storage = [rec_A, rec_B],
                   calls = [SentTokenize ''A. B. C. D. E.'', Encode ''A.'', CollectionAdd rec_A,
                            Encode ''B.'', CollectionAdd rec_B]\<rparr>)
                \<lparr>rec_id = str_nat (length [''A.'', ''B.'']), rec_embedding = v,
                  rec_document = ''C.''\<rparr> = None)"
    using five_fails by simp
  have enc: "encode five_libs ''A.'' = Some [1, 0]" "encode five_libs ''B.'' = Some [0, 1]"
    by (simp_all add: five_libs_def table_libs_def)
  have ids: "str_nat 0 = ''0''" "str_nat (Suc 0) = ''1''"
    by (simp_all add: string_eval)
  note all = stored_records_survive_failure [of five_libs present_in,
      OF keeps five_text nonempty five_sentences five_before fails]
  have j0: "0 < length [''A.'', ''B.'']" and j1: "1 < length [''A.'', ''B.'']"
    by simp_all
  note first = all [THEN conjunct1, rule_format, OF j0]
  note second = all [THEN conjunct1, rule_format, OF j1]
  from first second show ?thesis
    by (simp add: enc ids rec_A_def rec_B_def)
qed

section \<open>Empty and blank documents\<close>

lemma populate_database_empty:
  "extract_file_content L file_content file_name = Some [] \<Longrightarrow>
   populate_database L file_content file_name w = (Returned CouldNotProcess, w)"
  by (simp add: populate_database_def)

lemma populate_database_segments:
  assumes "extract_file_content L file_content file_name = Some text" and "text \<noteq> []"
  shows "\<exists>rest. calls (snd (populate_database L file_content file_name w))
               = calls w @ SentTokenize text # rest"
proof (cases "sent_tokenize L text")
  case None
  with assms show ?thesis
    by (simp add: populate_database_def called_def)
next
  case (Some sentences)
  have grows: "\<exists>rest. calls (snd (add_sentences L file_name i ss w0)) = calls w0 @ rest"
    for i ss and w0 :: "'a world"
  proof (induction ss arbitrary: i w0)
    case Nil
    show ?case by simp
  next
    case (Cons s ss)
    show ?case
    proof (cases "encode L s")
      case None
      then show ?thesis by (simp add: called_def)
    next
      case v: (Some v)
      let ?r = "\<lparr>rec_id = str_nat i, rec_embedding = v, rec_document = s\<rparr>"
      show ?thesis
      proof (cases "collection_add L (document_storage w0) ?r")
        case None
        with v show ?thesis by (simp add: called_def)
      next
        case (Some st')
        let ?w1 = "(called (CollectionAdd ?r) (called (Encode s) w0))\<lparr>document_storage := st'\<rparr>"
        from Cons.IH [of "Suc i" ?w1] obtain rest
          where "calls (snd (add_sentences L file_name (Suc i) ss ?w1)) = calls ?w1 @ rest"
          by blast
        with v Some show ?thesis by (simp add: called_def)
      qed
    qed
  qed
  from grows [of 0 sentences "called (SentTokenize text) w"] obtain rest
    where "calls (snd (add_sentences L file_name 0 sentences (called (SentTokenize text) w)))
             = calls (called (SentTokenize text) w) @ rest"
    by blast
  with assms Some show ?thesis
    by (simp add: populate_database_sentences [OF assms Some] called_def)
qed

text \<open>
  C6 as stated fails on the program for a blank text. A text of one space passes the test
  \<^verbatim>\<open>if not text\<close>: it is handed to the segmenter, and the run ends with the success reply.
\<close>

theorem blank_document_counterexample:
  "populate_database blank_libs [0x20] ''b.txt'' empty_world
     = (Returned SavedOk, \<lparr>document_storage = [], calls = [SentTokenize '' '']\<rparr>)"
proof -
  have "extract_file_content blank_libs [0x20] ''b.txt'' = Some '' ''"
    by (simp add: extract_file_content_def txt_name blank_libs_def table_libs_def)
  moreover have "sent_tokenize blank_libs '' '' = Some []"
    by (simp add: blank_libs_def table_libs_def)
  ultimately show ?thesis
    by (simp add: populate_database_def called_def empty_world_def)
qed

text \<open>
  C6, amended. An empty text is rejected with the could-not-process reply, and the world is
  the one before the call: nothing was segmented, embedded or stored. A text that is not
  empty, blank or not, is not rejected: the first thing the run does is to call the
  segmenter on it.
\<close>

theorem empty_document_rejected:
  assumes "extract_file_content L file_content file_name = Some text"
  shows "(text = [] \<longrightarrow> populate_database L file_content file_name w = (Returned CouldNotProcess, w))
       \<and> (text \<noteq> [] \<longrightarrow>
            (\<exists>rest. calls (snd (populate_database L file_content file_name w))
                      = calls w @ SentTokenize text # rest))"
  using assms populate_database_empty [of L file_content file_name w]
    populate_database_segments [of L file_content file_name "text" w]
  by blast

theorem empty_document_rejected_witness:
  "populate_database bom_libs bom_bytes ''a.txt'' empty_world = (Returned CouldNotProcess, empty_world)"
proof -
  have "extract_file_content bom_libs bom_bytes ''a.txt'' = Some []"
    by (simp add: extract_file_content_def txt_name bom_libs_def table_libs_def)
  from empty_document_rejected [OF this, of empty_world] show ?thesis
    by simp
qed

section \<open>Documents without sentences\<close>

text \<open>
  C7 as stated fails on the program. A text that is not empty and has no sentence gets the
  success reply, the reply of a run that stored every sentence: no outcome of its own.
\<close>

theorem no_sentences_counterexample:
  "populate_database newline_libs [0x0A] ''b.txt'' empty_world
     = (Returned SavedOk, \<lparr>document_storage = [], calls = [SentTokenize [CHR 0x0A]]\<rparr>)"
proof -
  have "extract_file_content newline_libs [0x0A] ''b.txt'' = Some [CHR 0x0A]"
    by (simp add: extract_file_content_def txt_name newline_libs_def table_libs_def)
  moreover have "sent_tokenize newline_libs [CHR 0x0A] = Some []"
    by (simp add: newline_libs_def table_libs_def)
  ultimately show ?thesis
    by (simp add: populate_database_def called_def empty_world_def)
qed

text \<open>
  C7, amended. For a text that is not empty and in which the segmenter finds no sentence,
  \<^verbatim>\<open>populate_database\<close> returns the success reply; the only call made is the one to
  the segmenter, so no embedding is computed and the collection is unchanged.
\<close>

theorem no_sentences_reports_success:
  assumes "extract_file_content L file_content file_name = Some text" and "text \<noteq> []"
    and "sent_tokenize L text = Some []"
  shows "populate_database L file_content file_name w
           = (Returned SavedOk, called (SentTokenize text) w)"
  using assms by (simp add: populate_database_def)

theorem no_sentences_reports_success_witness:
  "populate_database newline_libs [0x0A] ''b.txt'' empty_world
     = (Returned SavedOk, called (SentTokenize [CHR 0x0A]) empty_world)"
proof -
  have a: "extract_file_content newline_libs [0x0A] ''b.txt'' = Some [CHR 0x0A]"
    by (simp add: extract_file_content_def txt_name newline_libs_def table_libs_def)
  have b: "[CHR 0x0A] \<noteq> []" by simp
  have c: "sent_tokenize newline_libs [CHR 0x0A] = Some []"
    by (simp add: newline_libs_def table_libs_def)
  show ?thesis
    by (rule no_sentences_reports_success [OF a b c])
qed

section \<open>Queries\<close>

lemma search_keeps_storage:
  "document_storage (snd (search_similar_content L query top_n w)) = document_storage w"
  by (simp add: search_similar_content_def called_def Let_def
      split: option.splits list.splits)

lemma search_found:
  assumes "encode L query = Some v"
    and "collection_query L (document_storage w) v top_n = Some results"
    and "documents results = Some (matched # others)"
  shows "search_similar_content L query top_n w
           = (SearchResults (format_results 0 matched),
              called (CollectionQuery v top_n) (called (Encode query) w))"
  using assms by (simp add: search_similar_content_def)

lemma search_two_records:
  "store_search [rec_A, rec_B] [1, 0] 5 = [(rec_A, 1), (rec_B, 0)]"
  by (simp add: store_search_def scan_def similarity_def cosine_similarity_def dot_def
      rec_A_def rec_B_def)

lemma format_two: "format_results 0 [''A.'', ''B.''] = ''1. A.'' @ [CHR 0x0A] @ ''2. B.'' @ [CHR 0x0A]"
  by (simp add: string_eval)

text \<open>
  C8 as stated fails on the program. The empty query is not rejected: the embedding model
  is called on it, the collection is queried, and the reply is a result list.
\<close>

theorem empty_query_counterexample:
  "search_similar_content query_libs [] 5 two_records
     = (SearchResults (''1. A.'' @ [CHR 0x0A] @ ''2. B.'' @ [CHR 0x0A]),
        \<lparr>document_storage = [rec_A, rec_B],
         calls = [Encode [], CollectionQuery [1, 0] 5]\<rparr>)"
proof -
  have enc: "encode query_libs [] = Some [1, 0]"
    by (simp add: query_libs_def table_libs_def)
  have ans: "collection_query query_libs (document_storage two_records) [1, 0] 5
               = Some \<lparr>documents = Some [[''A.'', ''B.'']]\<rparr>"
    by (simp add: query_libs_def table_libs_def two_records_def store_query_def
        search_two_records) (simp add: rec_A_def rec_B_def)
  have "documents \<lparr>documents = Some [[''A.'', ''B.'']]\<rparr> = Some ([''A.'', ''B.''] # [])"
    by simp
  from search_found [OF enc ans this] show ?thesis
    unfolding format_two by (simp add: called_def two_records_def)
qed

text \<open>
  C8, amended. A query is not checked for being empty: every query text, the empty one
  too, is passed to the embedding model, the collection is queried with the vector, and
  when the collection answers with the matches of that vector the reply is the list made
  from them.
\<close>

theorem query_without_rejection:
  assumes "encode L query = Some v"
    and "collection_query L (document_storage w) v top_n = Some results"
    and "documents results = Some (matched # others)"
  shows "search_similar_content L query top_n w
           = (SearchResults (format_results 0 matched),
              called (CollectionQuery v top_n) (called (Encode query) w))"
  using assms by (rule search_found)

theorem query_without_rejection_witness:
  "search_similar_content query_libs [] 5 two_records
     = (SearchResults (format_results 0 [''A.'', ''B.'']),
        called (CollectionQuery [1, 0] 5) (called (Encode []) two_records))"
proof -
  have enc: "encode query_libs [] = Some [1, 0]"
    by (simp add: query_libs_def table_libs_def)
  have ans: "collection_query query_libs (document_storage two_records) [1, 0] 5
               = Some \<lparr>documents = Some [[''A.'', ''B.'']]\<rparr>"
    by (simp add: query_libs_def table_libs_def two_records_def store_query_def
        search_two_records) (simp add: rec_A_def rec_B_def)
  have docs: "documents \<lparr>documents = Some [[''A.'', ''B.'']]\<rparr> = Some ([''A.'', ''B.''] # [])"
    by simp
  show ?thesis
    by (rule query_without_rejection [OF enc ans docs])
qed

section \<open>A search that finds nothing\<close>

lemma search_empty_store: "store_search [] q k = []"
  by (simp add: store_search_def scan_def)

text \<open>
  C4 fails on the program. For an empty store the collection answers the one query
  embedding with one empty list of documents. The test \<^verbatim>\<open>if not matched_documents\<close> looks
  at the outer list, which has that one entry: the reply is the header of a result list
  with no line under it, and not the no-match reply.
\<close>

theorem empty_store_reply:
  "search_similar_content query_libs ''sky'' 5 empty_world
     = (SearchResults [],
        \<lparr>document_storage = [], calls = [Encode ''sky'', CollectionQuery [1, 0] 5]\<rparr>)
   \<and> fst (search_similar_content query_libs ''sky'' 5 empty_world) \<noteq> NoMatchesFound"
proof -
  have enc: "encode query_libs ''sky'' = Some [1, 0]"
    by (simp add: query_libs_def table_libs_def)
  have ans: "collection_query query_libs (document_storage empty_world) [1, 0] 5
               = Some \<lparr>documents = Some [[]]\<rparr>"
    by (simp add: query_libs_def table_libs_def empty_world_def store_query_def search_empty_store)
  have "documents \<lparr>documents = Some [[]]\<rparr> = Some ([] # [])"
    by simp
  from search_found [OF enc ans this] show ?thesis
    by (simp add: called_def empty_world_def)
qed

section \<open>Identifiers of the stored sentences\<close>

lemma pair_first:
  "populate_database (pair_libs add) ab_bytes ''a.txt'' w =
     (let (r, w') = add_sentences (pair_libs add) ''a.txt'' 0 [''A.'', ''B.''] (called (SentTokenize ''A. B.'') w)
      in (Returned r, w'))"
  by (simp add: ab_bytes_def cd_bytes_def populate_database_def extract_file_content_def txt_name
      pair_libs_def table_libs_def)

lemma pair_second:
  "populate_database (pair_libs add) cd_bytes ''b.txt'' w =
     (let (r, w') = add_sentences (pair_libs add) ''b.txt'' 0 [''C.'', ''D.''] (called (SentTokenize ''C. D.'') w)
      in (Returned r, w'))"
  by (simp add: ab_bytes_def cd_bytes_def populate_database_def extract_file_content_def txt_name
      pair_libs_def table_libs_def)

lemma pair_first_unchecked:
  "populate_database (pair_libs unchecked_add) ab_bytes ''a.txt'' empty_world =
     (Returned SavedOk,
      \<lparr>document_storage = [rec_A, rec_B],
       calls = [SentTokenize ''A. B.'', Encode ''A.'', CollectionAdd rec_A,
                Encode ''B.'', CollectionAdd rec_B]\<rparr>)"
  unfolding pair_first
  by (simp add: pair_libs_def table_libs_def called_def empty_world_def unchecked_add_def
      rec_A_def rec_B_def Let_def string_eval)

lemma pair_first_checked:
  "populate_database (pair_libs checked_add) ab_bytes ''a.txt'' empty_world =
     (Returned SavedOk,
      \<lparr>document_storage = [rec_A, rec_B],
       calls = [SentTokenize ''A. B.'', Encode ''A.'', CollectionAdd rec_A,
                Encode ''B.'', CollectionAdd rec_B]\<rparr>)"
  unfolding pair_first
  by (simp add: pair_libs_def table_libs_def called_def empty_world_def checked_add_def store_add_def
      rec_A_def rec_B_def Let_def string_eval)

text \<open>
  C1 fails on the program. The id of a sentence is \<^verbatim>\<open>str(index)\<close>, its position in its own
  document, and the collection is one for all documents: the second file is stored under
  the ids \<^verbatim>\<open>0\<close> and \<^verbatim>\<open>1\<close> again. On a collection that takes every record the store then
  holds each id twice. On a collection that rejects an id it holds already (the store of
  the specification), the first \<^verbatim>\<open>add\<close> of the second file raises: the reply is the error
  reply and no sentence of the second file is stored.
\<close>

theorem second_file_reuses_ids:
  "fst (populate_database (pair_libs unchecked_add) ab_bytes ''a.txt'' empty_world) = Returned SavedOk
   \<and> fst (populate_database (pair_libs unchecked_add) cd_bytes ''b.txt''
          (snd (populate_database (pair_libs unchecked_add) ab_bytes ''a.txt'' empty_world)))
       = Returned SavedOk
   \<and> map rec_id (document_storage
        (snd (populate_database (pair_libs unchecked_add) cd_bytes ''b.txt''
          (snd (populate_database (pair_libs unchecked_add) ab_bytes ''a.txt'' empty_world)))))
       = [''0'', ''1'', ''0'', ''1'']
   \<and> fst (populate_database (pair_libs checked_add) ab_bytes ''a.txt'' empty_world) = Returned SavedOk
   \<and> populate_database (pair_libs checked_add) cd_bytes ''b.txt''
          (snd (populate_database (pair_libs checked_add) ab_bytes ''a.txt'' empty_world))
       = (Returned (AddFailed ''b.txt''),
          \<lparr>document_storage = [rec_A, rec_B],
           calls = [SentTokenize ''A. B.'', Encode ''A.'', CollectionAdd rec_A,
                    Encode ''B.'', CollectionAdd rec_B, SentTokenize ''C. D.'', Encode ''C.'',
                    CollectionAdd \<lparr>rec_id = ''0'', rec_embedding = [1, 1], rec_document = ''C.''\<rparr>]\<rparr>)"
proof -
  have u: "populate_database (pair_libs unchecked_add) cd_bytes ''b.txt''
             \<lparr>document_storage = [rec_A, rec_B],
              calls = [SentTokenize ''A. B.'', Encode ''A.'', CollectionAdd rec_A,
                       Encode ''B.'', CollectionAdd rec_B]\<rparr>
           = (Returned SavedOk,
              \<lparr>document_storage = [rec_A, rec_B,
                  \<lparr>rec_id = ''0'', rec_embedding = [1, 1], rec_document = ''C.''\<rparr>,
                  \<lparr>rec_id = ''1'', rec_embedding = [1, 2], rec_document = ''D.''\<rparr>],
               calls = [SentTokenize ''A. B.'', Encode ''A.'', CollectionAdd rec_A,
                        Encode ''B.'', CollectionAdd rec_B, SentTokenize ''C. D.'', Encode ''C.'',
                        CollectionAdd \<lparr>rec_id = ''0'', rec_embedding = [1, 1], rec_document = ''C.''\<rparr>,
                        Encode ''D.'',
                        CollectionAdd \<lparr>rec_id = ''1'', rec_embedding = [1, 2], rec_document = ''D.''\<rparr>]\<rparr>)"
    unfolding pair_second
    by (simp add: pair_libs_def table_libs_def called_def unchecked_add_def Let_def string_eval)
  have c: "populate_database (pair_libs checked_add) cd_bytes ''b.txt''
             \<lparr>document_storage = [rec_A, rec_B],
              calls = [SentTokenize ''A. B.'', Encode ''A.'', CollectionAdd rec_A,
                       Encode ''B.'', CollectionAdd rec_B]\<rparr>
           = (Returned (AddFailed ''b.txt''),
              \<lparr>document_storage = [rec_A, rec_B],
               calls = [SentTokenize ''A. B.'', Encode ''A.'', CollectionAdd rec_A,
                        Encode ''B.'', CollectionAdd rec_B, SentTokenize ''C. D.'', Encode ''C.'',
                        CollectionAdd \<lparr>rec_id = ''0'', rec_embedding = [1, 1], rec_document = ''C.''\<rparr>]\<rparr>)"
    unfolding pair_second
    by (simp add: pair_libs_def table_libs_def called_def checked_add_def store_add_def
        rec_A_def rec_B_def Let_def string_eval)
  show ?thesis
    unfolding pair_first_unchecked pair_first_checked snd_conv fst_conv u c
    by (simp add: rec_A_def rec_B_def)
qed

section \<open>The contract of the search has one answer\<close>

lemma ranks_before_irrefl: "\<not> ranks_before q st a a"
  by (simp add: ranks_before_def)

lemma ranks_before_asym: "ranks_before q st a b \<Longrightarrow> \<not> ranks_before q st b a"
  by (auto simp: ranks_before_def)

lemma sorted_wrt_unique:
  assumes irrefl: "\<And>a. \<not> R a a" and asym: "\<And>a b. R a b \<Longrightarrow> \<not> R b a"
  shows "sorted_wrt R xs \<Longrightarrow> sorted_wrt R ys \<Longrightarrow> set xs = set ys \<Longrightarrow> xs = ys"
proof (induction xs arbitrary: ys)
  case Nil
  then show ?case by simp
next
  case (Cons x xs)
  from Cons.prems(3) obtain y ys' where ys: "ys = y # ys'"
    by (cases ys) auto
  have same: "x = y"
  proof (rule ccontr)
    assume differ: "x \<noteq> y"
    with Cons.prems(3) ys have "x \<in> set ys'" and "y \<in> set xs" by auto
    with Cons.prems(1,2) ys have "R y x" and "R x y" by auto
    with asym show False by blast
  qed
  have "x \<notin> set xs" and "y \<notin> set ys'"
    using Cons.prems(1,2) ys irrefl by auto
  with Cons.prems(3) ys same have "set xs = set ys'" by auto
  with Cons.IH [of ys'] Cons.prems(1,2) ys same show ?case by simp
qed

lemma ranks_before_distinct: "sorted_wrt (ranks_before q st) ps \<Longrightarrow> distinct ps"
  by (induction ps) (auto simp: ranks_before_irrefl)

lemma search_contract_set:
  assumes a: "search_contract st q k ps" and b: "search_contract st q k ps'"
  shows "set ps = set ps'"
proof -
  from a have "distinct ps" and "length ps = min k (length st)"
    by (auto simp: search_contract_def intro: ranks_before_distinct)
  moreover from b have "distinct ps'" and "length ps' = min k (length st)"
    by (auto simp: search_contract_def intro: ranks_before_distinct)
  ultimately have card: "card (set ps) = card (set ps')"
    by (simp add: distinct_card)
  have "set ps \<subseteq> set ps' \<or> set ps' \<subseteq> set ps"
  proof (rule ccontr)
    assume "\<not> (set ps \<subseteq> set ps' \<or> set ps' \<subseteq> set ps)"
    then obtain x y where x: "x \<in> set ps" "x \<notin> set ps'" and y: "y \<in> set ps'" "y \<notin> set ps"
      by blast
    from a x(1) have "x < length st" by (simp add: search_contract_def)
    moreover from b y(1) have "y < length st" by (simp add: search_contract_def)
    ultimately have "ranks_before q st x y" and "ranks_before q st y x"
      using a b x y by (auto simp: search_contract_def)
    with ranks_before_asym show False by blast
  qed
  then show ?thesis
  proof
    assume "set ps \<subseteq> set ps'"
    with card show ?thesis
      using card_subset_eq [of "set ps'" "set ps"] by simp
  next
    assume "set ps' \<subseteq> set ps"
    with card show ?thesis
      using card_subset_eq [of "set ps" "set ps'"] by simp
  qed
qed

lemma search_contract_unique:
  assumes a: "search_contract st q k ps" and b: "search_contract st q k ps'"
  shows "ps = ps'"
proof (rule sorted_wrt_unique [of "ranks_before q st"])
  show "\<not> ranks_before q st x x" for x by (rule ranks_before_irrefl)
  show "ranks_before q st x y \<Longrightarrow> \<not> ranks_before q st y x" for x y by (rule ranks_before_asym)
  show "sorted_wrt (ranks_before q st) ps" using a by (simp add: search_contract_def)
  show "sorted_wrt (ranks_before q st) ps'" using b by (simp add: search_contract_def)
  show "set ps = set ps'" using a b by (rule search_contract_set)
qed

text \<open>
  C9. Two invocations of the search, one after the other, on a store and with a query that
  the embedding model maps to the same vector both times. \<open>L1\<close> are the libraries as they
  answer at the first invocation and \<open>L2\<close> as they answer at the second: they are not
  assumed to answer alike, only that each answer of the collection meets the contract of
  \<open>search\<close>. The first invocation leaves the store as it was, so the second one runs on
  the same store; the two answers are then the same sequence of records, and the program
  gives the same reply both times.
\<close>

theorem search_deterministic:
  assumes enc1: "encode L1 query = Some v" and enc2: "encode L2 query = Some v"
    and ans1: "collection_query L1 (document_storage w) v k = Some r1"
    and docs1: "documents r1 = Some [map (\<lambda>p. rec_document (document_storage w ! p)) ps1]"
    and contract1: "search_contract (document_storage w) v k ps1"
    and ans2: "collection_query L2 (document_storage w) v k = Some r2"
    and docs2: "documents r2 = Some [map (\<lambda>p. rec_document (document_storage w ! p)) ps2]"
    and contract2: "search_contract (document_storage w) v k ps2"
  shows "document_storage (snd (search_similar_content L1 query k w)) = document_storage w
       \<and> records_at (document_storage w) v ps2 = records_at (document_storage w) v ps1
       \<and> fst (search_similar_content L2 query k (snd (search_similar_content L1 query k w)))
           = fst (search_similar_content L1 query k w)"
proof -
  let ?w' = "snd (search_similar_content L1 query k w)"
  have kept: "document_storage ?w' = document_storage w"
    by (rule search_keeps_storage)
  have same: "ps1 = ps2"
    using contract1 contract2 by (rule search_contract_unique)
  have first: "fst (search_similar_content L1 query k w)
                 = SearchResults (format_results 0 (map (\<lambda>p. rec_document (document_storage w ! p)) ps1))"
    using search_found [OF enc1 ans1 docs1] by simp
  from ans2 have ans2': "collection_query L2 (document_storage ?w') v k = Some r2"
    unfolding kept .
  have second: "fst (search_similar_content L2 query k ?w')
                 = SearchResults (format_results 0 (map (\<lambda>p. rec_document (document_storage w ! p)) ps2))"
    using search_found [OF enc2 ans2' docs2] by simp
  from kept same first second show ?thesis by simp
qed

lemma search_best_of_two:
  "store_search [rec_A, rec_B] [1, 0] (Suc 0) = [(rec_A, 1)]"
  by (simp add: store_search_def scan_def similarity_def cosine_similarity_def dot_def
      rec_A_def rec_B_def)

lemma contract_best_of_two: "search_contract [rec_A, rec_B] [1, 0] 1 [0]"
  by (simp add: search_contract_def ranks_before_def similarity_def cosine_similarity_def dot_def
      rec_A_def rec_B_def)

theorem search_deterministic_witness:
  "fst (search_similar_content canned_libs ''sky'' 1
          (snd (search_similar_content query_libs ''sky'' 1 two_records)))
     = fst (search_similar_content query_libs ''sky'' 1 two_records)
   \<and> records_at [rec_A, rec_B] [1, 0] [0] = [(rec_A, 1)]"
proof -
  have enc: "encode query_libs ''sky'' = Some [1, 0]"
    by (simp add: query_libs_def table_libs_def)
  have enc': "encode canned_libs ''sky'' = Some [1, 0]"
    by (simp add: canned_libs_def query_libs_def table_libs_def)
  have ans: "collection_query query_libs (document_storage two_records) [1, 0] 1
               = Some \<lparr>documents = Some [[''A.'']]\<rparr>"
    by (simp add: query_libs_def table_libs_def two_records_def store_query_def
        search_best_of_two) (simp add: rec_A_def)
  have ans': "collection_query canned_libs (document_storage two_records) [1, 0] 1
               = Some \<lparr>documents = Some [[''A.'']]\<rparr>"
    by (simp add: canned_libs_def)
  have docs: "documents \<lparr>documents = Some [[''A.'']]\<rparr>
                = Some [map (\<lambda>p. rec_document (document_storage two_records ! p)) [0]]"
    by (simp add: two_records_def rec_A_def)
  have contract: "search_contract (document_storage two_records) [1, 0] 1 [0]"
    unfolding two_records_def world.simps by (rule contract_best_of_two)
  have at: "records_at [rec_A, rec_B] [1, 0] [0] = [(rec_A, 1)]"
    by (simp add: records_at_def similarity_def cosine_similarity_def dot_def rec_A_def)
  from search_deterministic [OF enc enc' ans docs contract ans' docs contract] at
  show ?thesis by simp
qed

section \<open>The best records of a search\<close>

lemma keep_best_insort:
  "insort_key (\<lambda>e. - fst e) a (keep_best x ys) = keep_best x (insort_key (\<lambda>e. - fst e) a ys)"
  by (induction ys) auto

lemma sort_key_snoc:
  "sort_key (\<lambda>e. - fst e) (xs @ [x]) = keep_best x (sort_key (\<lambda>e. - fst e) xs)"
  by (induction xs) (simp_all add: keep_best_insort)

lemma take_keep_best:
  "take k (keep_best e (take k ys)) = take k (keep_best e ys)"
proof (induction ys arbitrary: k)
  case Nil
  show ?case by simp
next
  case (Cons y ys)
  show ?case
  proof (cases k)
    case 0
    then show ?thesis by simp
  next
    case (Suc k')
    have "take k' (y # take k' ys) = take k' (y # ys)"
      by (cases k') simp_all
    with Suc Cons.IH [of k'] show ?thesis by simp
  qed
qed

lemma scan_sort_key:
  "scan q k st = take k (sort_key (\<lambda>e. - fst e) (map (\<lambda>r. (similarity q r, r)) st))"
proof (induction st rule: rev_induct)
  case Nil
  show ?case by (simp add: scan_def)
next
  case (snoc r st)
  have "scan q k (st @ [r]) = take k (keep_best (similarity q r, r) (scan q k st))"
    by (simp add: scan_def)
  also have "\<dots> = take k (keep_best (similarity q r, r)
                      (sort_key (\<lambda>e. - fst e) (map (\<lambda>r. (similarity q r, r)) st)))"
    unfolding snoc.IH by (rule take_keep_best)
  finally show ?case
    by (simp add: sort_key_snoc)
qed

lemma insort_key_image:
  "insort_key f (g a) (map g ys) = map g (insort_key (\<lambda>x. f (g x)) a ys)"
  by (induction ys) simp_all

lemma sort_key_image:
  "sort_key f (map g xs) = map g (sort_key (\<lambda>x. f (g x)) xs)"
  by (induction xs) (simp_all add: insort_key_image)

lemma store_search_positions:
  "store_search st q k
     = records_at st q (take k (sort_key (\<lambda>p. - similarity q (st ! p)) [0..<length st]))"
proof -
  have pairs: "map (\<lambda>r. (similarity q r, r)) st
          = map (\<lambda>p. (similarity q (st ! p), st ! p)) [0..<length st]"
    by (rule nth_equalityI) simp_all
  have "sort_key (\<lambda>e. - fst e) (map (\<lambda>p. (similarity q (st ! p), st ! p)) [0..<length st])
          = map (\<lambda>p. (similarity q (st ! p), st ! p))
              (sort_key (\<lambda>p. - fst (similarity q (st ! p), st ! p)) [0..<length st])"
    by (rule sort_key_image)
  then have "scan q k st
          = take k (map (\<lambda>p. (similarity q (st ! p), st ! p))
              (sort_key (\<lambda>p. - similarity q (st ! p)) [0..<length st]))"
    unfolding scan_sort_key pairs by (simp only: fst_conv)
  then show ?thesis
    unfolding store_search_def records_at_def by (simp only: take_map map_map comp_def split_conv)
qed

lemma insort_ranks:
  assumes "sorted_wrt (ranks_before q st) ys" and "\<forall>y\<in>set ys. a < y"
  shows "sorted_wrt (ranks_before q st) (insort_key (\<lambda>p. - similarity q (st ! p)) a ys)"
  using assms
proof (induction ys)
  case Nil
  show ?case by simp
next
  case (Cons y ys)
  show ?case
  proof (cases "similarity q (st ! y) \<le> similarity q (st ! a)")
    case True
    have "ranks_before q st a z" if "z \<in> set (y # ys)" for z
    proof -
      from that Cons.prems(2) have "a < z" by auto
      moreover from that Cons.prems(1) have "similarity q (st ! z) \<le> similarity q (st ! y)"
        by (auto simp: ranks_before_def)
      ultimately show ?thesis using True by (auto simp: ranks_before_def)
    qed
    with True Cons.prems(1) show ?thesis by simp
  next
    case False
    then have "ranks_before q st y a" by (simp add: ranks_before_def)
    with False Cons show ?thesis by (auto simp: set_insort_key)
  qed
qed

lemma sort_ranks:
  "sorted_wrt (<) xs \<Longrightarrow> sorted_wrt (ranks_before q st) (sort_key (\<lambda>p. - similarity q (st ! p)) xs)"
proof (induction xs)
  case Nil
  show ?case by simp
next
  case (Cons x xs)
  then show ?case by (simp add: insort_ranks)
qed

lemma scan_meets_contract:
  "search_contract st q k (take k (sort_key (\<lambda>p. - similarity q (st ! p)) [0..<length st]))"
proof -
  let ?all = "sort_key (\<lambda>p. - similarity q (st ! p)) [0..<length st]"
  have sorted: "sorted_wrt (ranks_before q st) ?all"
    by (rule sort_ranks) simp
  have all: "set ?all = {0..<length st}" by simp
  have "sorted_wrt (ranks_before q st) (take k ?all @ drop k ?all)"
    using sorted by simp
  then have split: "sorted_wrt (ranks_before q st) (take k ?all)"
    and above: "\<forall>p\<in>set (take k ?all). \<forall>u\<in>set (drop k ?all). ranks_before q st p u"
    unfolding sorted_wrt_append by blast+
  have inside: "p < length st" if "p \<in> set (take k ?all)" for p
    using that all in_set_takeD [of p k ?all] by auto
  have rest: "u \<in> set (drop k ?all)" if "u < length st" and "u \<notin> set (take k ?all)" for u
  proof -
    from that(1) all have "u \<in> set (take k ?all @ drop k ?all)" by simp
    with that(2) show ?thesis by (simp only: set_append Un_iff) blast
  qed
  show ?thesis
    unfolding search_contract_def
    using split above inside rest by auto
qed

text \<open>
  C3. The search of the store, a scan over the records in insertion order that keeps the
  \<open>k\<close> best seen so far, returns at most \<open>k\<close> results, by decreasing similarity, and its
  answer meets the contract of \<open>search\<close>: it has \<open>k\<close> results (all records when the store
  has fewer), each a record of the store with its cosine similarity to the query, ordered
  by decreasing similarity with the earlier inserted record first in a tie; and every
  record returned is more similar to the query than every record not returned, or as
  similar and inserted earlier.
\<close>

theorem search_returns_best:
  "length (store_search st q k) \<le> k
   \<and> sorted_wrt (\<lambda>a b. snd b \<le> snd a) (store_search st q k)
   \<and> (\<exists>ps. store_search st q k = records_at st q ps \<and> search_contract st q k ps)"
proof -
  let ?ps = "take k (sort_key (\<lambda>p. - similarity q (st ! p)) [0..<length st])"
  have found: "store_search st q k = records_at st q ?ps"
    by (rule store_search_positions)
  have contract: "search_contract st q k ?ps"
    by (rule scan_meets_contract)
  have "length (store_search st q k) \<le> k"
    unfolding found by (simp add: records_at_def)
  moreover have "sorted_wrt (\<lambda>a b. snd b \<le> snd a) (store_search st q k)"
  proof -
    from contract have "sorted_wrt (ranks_before q st) ?ps"
      by (simp add: search_contract_def)
    then have "sorted_wrt (\<lambda>a b. similarity q (st ! b) \<le> similarity q (st ! a)) ?ps"
      by (rule sorted_wrt_mono_rel [rotated]) (auto simp: ranks_before_def)
    then show ?thesis
      unfolding found by (simp add: records_at_def sorted_wrt_map)
  qed
  ultimately show ?thesis
    using found contract by blast
qed

lemma contract_with_tie: "search_contract [rec_B, rec_A, rec_twin] [1, 0] 2 [1, 2]"
  by (auto simp: search_contract_def ranks_before_def similarity_def cosine_similarity_def dot_def
      rec_A_def rec_B_def rec_twin_def less_Suc_eq numeral_2_eq_2 numeral_3_eq_3)

theorem search_returns_best_witness:
  "store_search [rec_B, rec_A, rec_twin] [1, 0] 2 = [(rec_A, 1), (rec_twin, 1)]
   \<and> similarity [1, 0] rec_B = 0"
proof -
  from search_returns_best [of "[rec_B, rec_A, rec_twin]" "[1, 0]" 2]
  obtain ps where found: "store_search [rec_B, rec_A, rec_twin] [1, 0] 2
                            = records_at [rec_B, rec_A, rec_twin] [1, 0] ps"
    and contract: "search_contract [rec_B, rec_A, rec_twin] [1, 0] 2 ps"
    by blast
  from contract contract_with_tie have "ps = [1, 2]"
    by (rule search_contract_unique)
  with found show ?thesis
    by (simp add: records_at_def similarity_def cosine_similarity_def dot_def
        rec_A_def rec_B_def rec_twin_def)
qed

end
